theory Spec2Isabelle
  imports Complex_Main
begin

section \<open>Segmentation metrics of skimage.measure.segmentation_metrics\<close>

text \<open>
  The module compares two integer label fields.  Its arithmetic runs on numpy arrays and
  on scipy sparse matrices; the model keeps the values those library calls produce.

  \<^item> An array is its rank together with its elements in C order.  Ranks one and two
    are modelled, which is what the functions below distinguish; labels are naturals,
    so negative labels are excluded by the type.
  \<^item> A numpy float is a real number, or \<open>None\<close> when the operation yields \<open>nan\<close> or
    an infinity (a division by zero on \<open>float64\<close> warns and returns such a value, it
    does not raise).
  \<^item> A raised exception is the \<open>Inl\<close> branch of a sum.
\<close>

subsection \<open>Arrays, errors, floats\<close>

datatype error = ShapeMismatch | ValueError | IndexError | AxisError | ZeroDivisionError

datatype 'a ndarray = Arr1 "'a list" | Arr2 "'a list list"

fun shape :: "'a ndarray \<Rightarrow> nat list" where
  "shape (Arr1 xs) = [length xs]"
| "shape (Arr2 rows) = [length rows, (case rows of [] \<Rightarrow> 0 | r # _ \<Rightarrow> length r)]"

fun ravel :: "'a ndarray \<Rightarrow> 'a list" where
  "ravel (Arr1 xs) = xs"
| "ravel (Arr2 rows) = concat rows"

fun map_ndarray :: "('a \<Rightarrow> 'b) \<Rightarrow> 'a ndarray \<Rightarrow> 'b ndarray" where
  "map_ndarray f (Arr1 xs) = Arr1 (map f xs)"
| "map_ndarray f (Arr2 rows) = Arr2 (map (map f) rows)"

definition size_of :: "'a ndarray \<Rightarrow> nat" where
  "size_of a = length (ravel a)"

definition ebind :: "error + 'a \<Rightarrow> ('a \<Rightarrow> error + 'b) \<Rightarrow> error + 'b" where
  "ebind m f = (case m of Inl e \<Rightarrow> Inl e | Inr x \<Rightarrow> f x)"

text \<open>Division of two \<open>float64\<close> values: a zero divisor gives \<open>nan\<close> or an infinity.\<close>

definition fdiv :: "real \<Rightarrow> real \<Rightarrow> real option" where
  "fdiv x y = (if y = 0 then None else Some (x / y))"

text \<open>\<open>np.unique\<close>: the distinct values in ascending order.\<close>

definition unique :: "'a::linorder list \<Rightarrow> 'a list" where
  "unique xs = sort (remdups xs)"

text \<open>\<open>arr[idx]\<close> with an integer index array: every index must be in range.\<close>

definition take_ix :: "'a list \<Rightarrow> nat ndarray \<Rightarrow> error + 'a ndarray" where
  "take_ix arr idx =
     (if list_all (\<lambda>i. i < length arr) (ravel idx)
      then Inr (map_ndarray (\<lambda>i. arr ! i) idx) else Inl IndexError)"

text \<open>
  A numpy array is rectangular: in the representation of a rank-two array all rows have
  the length of the first.
\<close>

definition rect :: "'a ndarray \<Rightarrow> bool" where
  "rect a = (case a of Arr1 _ \<Rightarrow> True
             | Arr2 rows \<Rightarrow> list_all (\<lambda>r. length r = length (hd rows)) rows)"

text \<open>
  Modelled from the spec: \<open>_assert_compatible\<close> is imported from \<open>simple_metrics\<close>, which
  is not among the sources.  The spec's input contract: two fields of identical shape,
  a shape mismatch being an error raised before any computation.  The element type of
  an array is fixed by its HOL type, so the dtype part of the contract has no
  counterpart here.
\<close>

definition assert_compatible :: "'a ndarray \<Rightarrow> 'b ndarray \<Rightarrow> error + unit" where
  "assert_compatible im1 im2 = (if shape im1 = shape im2 then Inr () else Inl ShapeMismatch)"

subsection \<open>The sparse contingency table\<close>

text \<open>
  A sparse matrix is represented by its rows.  \<open>coo_matrix((data, (row, col)))\<close> has
  shape \<open>(max row + 1, max col + 1)\<close>, cannot infer a shape from empty index arrays, and
  \<open>tocsr\<close> sums the entries that share a coordinate; so the cell \<open>(i, j)\<close> is the sum
  of the data at the positions whose coordinate is \<open>(i, j)\<close>.
\<close>

type_synonym matrix = "real list list"

definition coo_cell :: "(real \<times> nat \<times> nat) list \<Rightarrow> nat \<Rightarrow> nat \<Rightarrow> real" where
  "coo_cell es i j = sum_list (map (\<lambda>(d, r, c). if r = i \<and> c = j then d else 0) es)"

definition coo_tocsr :: "real list \<Rightarrow> nat list \<Rightarrow> nat list \<Rightarrow> error + matrix" where
  "coo_tocsr data row col =
     (if length row \<noteq> length data \<or> length col \<noteq> length data then Inl ValueError
      else if row = [] \<or> col = [] then Inl ValueError
      else Inr (map (\<lambda>i. map (\<lambda>j. coo_cell (zip data (zip row col)) i j)
                            [0..<Suc (Max (set col))])
                    [0..<Suc (Max (set row))]))"

definition contingency_table :: "nat ndarray \<Rightarrow> nat ndarray \<Rightarrow> error + matrix" where
  "contingency_table im_true im_test =
     (let im_test_r = ravel im_test;
          im_true_r = ravel im_true
      in if length im_true_r \<noteq> length im_test_r then Inl IndexError
         else
           let ignored = map2 (\<lambda>s t. s = 0 \<or> t = 0) im_test_r im_true_r;
               data = map (\<lambda>ig. if ig then 0 else 1) ignored
           in coo_tocsr data im_test_r im_true_r)"

text \<open>
  The reductions of a sparse matrix.  \<open>sum(axis=0)\<close> and \<open>sum(axis=1)\<close> return an
  \<open>np.matrix\<close>, which stays two-dimensional: one row of column sums, respectively one
  column of row sums.  Indexing an \<open>np.matrix\<close> with \<open>[1:]\<close> drops its first row.
\<close>

definition ncols :: "matrix \<Rightarrow> nat" where
  "ncols m = (case m of [] \<Rightarrow> 0 | r # _ \<Rightarrow> length r)"

definition sum_all :: "matrix \<Rightarrow> real" where
  "sum_all m = sum_list (map sum_list m)"

definition col_sums :: "matrix \<Rightarrow> real list" where
  "col_sums m = map (\<lambda>j. sum_list (map (\<lambda>r. r ! j) m)) [0..<ncols m]"

definition row_sums :: "matrix \<Rightarrow> real list" where
  "row_sums m = map sum_list m"

definition sum_axis0 :: "matrix \<Rightarrow> matrix" where
  "sum_axis0 m = [col_sums m]"

definition sum_axis1 :: "matrix \<Rightarrow> matrix" where
  "sum_axis1 m = map (\<lambda>s. [s]) (row_sums m)"

subsection \<open>relabel_from_one\<close>

definition relabel_from_one :: "nat ndarray \<Rightarrow> error + (nat ndarray \<times> nat list \<times> nat list)" where
  "relabel_from_one label_field =
     (let labels = unique (ravel label_field);
          labels0 = filter (\<lambda>l. l \<noteq> 0) labels
      in if labels = [] then Inl ValueError
         else
           let m = Max (set labels)
           in if m = length labels0 then Inr (label_field, labels, labels)
              else
                let forward_map = fold (\<lambda>(l, v) fm. fm[l := v])
                                       (zip labels0 [1..<length labels0 + 1])
                                       (replicate (m + 1) 0);
                    inverse_map = (if 0 \<notin> set labels then 0 # labels else labels)
                in ebind (take_ix forward_map label_field)
                     (\<lambda>relabeled. Inr (relabeled, forward_map, inverse_map)))"

subsection \<open>compare_raw_edit_distance\<close>

definition compare_raw_edit_distance ::
  "nat ndarray \<Rightarrow> nat ndarray \<Rightarrow> real \<Rightarrow> error + (real \<times> real)" where
  "compare_raw_edit_distance im_true im_test size_threshold =
     ebind (assert_compatible im_true im_test) (\<lambda>_.
     ebind (relabel_from_one im_test) (\<lambda>(im_test', _, _).
     ebind (relabel_from_one im_true) (\<lambda>(im_true', _, _).
     ebind (contingency_table im_true' im_test') (\<lambda>r.
       let r1 = map (map (\<lambda>v. if v \<le> size_threshold then 0 else v)) r;
           r2 = map (map (\<lambda>v. if v \<noteq> 0 then v / v else v)) r1;
           false_splits = sum_all (drop 1 (map (map (\<lambda>v. v - 1)) (sum_axis0 r2)));
           false_merges = sum_all (drop 1 (map (map (\<lambda>v. v - 1)) (sum_axis1 r2)))
       in Inr (false_merges, false_splits)))))"

subsection \<open>Rand statistics\<close>

definition rand_values :: "matrix \<Rightarrow> real \<times> real \<times> real \<times> real" where
  "rand_values cont_table =
     (let n = sum_all cont_table;
          sum1 = sum_all (map (map (\<lambda>v. v * v)) cont_table);
          sum2 = sum_list (map (\<lambda>s. s ^ 2) (row_sums cont_table));
          sum3 = sum_list (map (\<lambda>s. s ^ 2) (col_sums cont_table));
          a = (sum1 - n) / 2;
          b = (sum2 - sum1) / 2;
          c = (sum3 - sum1) / 2;
          d = (sum1 + n ^ 2 - sum2 - sum3) / 2
      in (a, b, c, d))"

definition rand_index :: "nat ndarray \<Rightarrow> nat ndarray \<Rightarrow> error + real option" where
  "rand_index im1 im2 =
     ebind (contingency_table im1 im2) (\<lambda>cont.
       case rand_values cont of (a, b, c, d) \<Rightarrow> Inr (fdiv (a + d) (a + b + c + d)))"

definition adj_rand_index :: "nat ndarray \<Rightarrow> nat ndarray \<Rightarrow> error + real option" where
  "adj_rand_index im1 im2 =
     ebind (contingency_table im1 im2) (\<lambda>cont.
       case rand_values cont of (a, b, c, d) \<Rightarrow>
         let nk = a + b + c + d
         in Inr (fdiv (nk * (a + d) - ((a + b) * (a + c) + (c + d) * (b + d)))
                      (nk ^ 2 - ((a + b) * (a + c) + (c + d) * (b + d)))))"

definition compare_adapted_rand_error ::
  "nat ndarray \<Rightarrow> nat ndarray \<Rightarrow> error + (real option \<times> real option \<times> real option)" where
  "compare_adapted_rand_error im_true im_test =
     ebind (assert_compatible im_true im_test) (\<lambda>_.
       let segA = im_test;
           segB = im_true;
           n = real (size_of segA)
       in ebind (contingency_table segB segA) (\<lambda>p_ij.
            let sum_p_ij = sum_all (map (map (\<lambda>v. v * v)) p_ij);
                a_i = col_sums p_ij;
                b_i = row_sums p_ij;
                sum_a = sum_list (map (\<lambda>v. v * v) a_i);
                sum_b = sum_list (map (\<lambda>v. v * v) b_i);
                precision = fdiv (sum_p_ij - n) (sum_a - n);
                recall = fdiv (sum_p_ij - n) (sum_b - n);
                fscore = (case (precision, recall) of
                            (Some p, Some r) \<Rightarrow> fdiv (2 * p * r) (p + r)
                          | _ \<Rightarrow> None);
                are = map_option (\<lambda>f. 1 - f) fscore
            in Inr (are, precision, recall)))"

subsection \<open>compare_rand_by_threshold\<close>

text \<open>
  The connected-component labelling \<open>label\<close> of scipy is a parameter.  The subsampling
  branch divides two Python integers (\<open>ZeroDivisionError\<close> for \<open>npoints = 0\<close>) and
  indexes \<open>ts\<close> with the float array that \<open>np.arange\<close> builds from the float step, which
  numpy refuses with an \<open>IndexError\<close>.
\<close>

text \<open>
  \<open>sweep\<close> is the loop over the thresholds and \<open>thresholds\<close> the choice of \<open>ts\<close> that
  precedes it; \<open>compare_rand_by_threshold\<close> puts them together.
\<close>

fun sweep :: "(bool ndarray \<Rightarrow> nat ndarray \<times> nat) \<Rightarrow> nat ndarray \<Rightarrow> real ndarray \<Rightarrow>
    real list \<Rightarrow> error + (real option \<times> real option) list" where
  "sweep label im_true im_test [] = Inr []"
| "sweep label im_true im_test (t # ts) =
     (let seg = fst (label (map_ndarray (\<lambda>v. v < t) im_test))
      in ebind (rand_index seg im_true) (\<lambda>ri.
         ebind (adj_rand_index seg im_true) (\<lambda>ari.
         ebind (sweep label im_true im_test ts) (\<lambda>rest. Inr ((ri, ari) # rest)))))"

definition thresholds :: "real ndarray \<Rightarrow> int option \<Rightarrow> error + real list" where
  "thresholds im_test npoints =
     (let ts = drop 1 (unique (ravel im_test));
          npoints' = (case npoints of None \<Rightarrow> int (length ts) | Some k \<Rightarrow> k)
      in if int (length ts) > 2 * npoints'
         then (if npoints' = 0 then Inl ZeroDivisionError else Inl IndexError)
         else Inr ts)"

definition compare_rand_by_threshold ::
  "(bool ndarray \<Rightarrow> nat ndarray \<times> nat) \<Rightarrow> nat ndarray \<Rightarrow> real ndarray \<Rightarrow> int option \<Rightarrow>
     error + (real list \<times> real option list \<times> real option list)" where
  "compare_rand_by_threshold label im_true im_test npoints =
     ebind (assert_compatible im_true im_test) (\<lambda>_.
     ebind (thresholds im_test npoints) (\<lambda>ts.
     ebind (sweep label im_true im_test ts) (\<lambda>result.
       Inr (ts, map fst result, map snd result))))"

subsection \<open>Variation of information\<close>

text \<open>
  \<open>vi_tables\<close> binds its first argument as the table, so the helpers run on the dense
  branch of \<open>xlogx\<close>, \<open>divide_rows\<close> and \<open>divide_columns\<close>.  Inside \<open>vi_tables\<close> the
  divisors are the non-zero marginals.  A one-dimensional array has no axis 1.  When the
  entries sum to zero the normalisation is \<open>0/0\<close> at every cell and every table is \<open>nan\<close>.
\<close>

definition xlogx :: "matrix \<Rightarrow> matrix" where
  "xlogx x = map (map (\<lambda>z. if z \<noteq> 0 then z * log 2 z else z)) x"

definition divide_rows :: "matrix \<Rightarrow> real list \<Rightarrow> matrix" where
  "divide_rows m column = map2 (\<lambda>r c. map (\<lambda>v. v / c) r) m column"

definition divide_columns :: "matrix \<Rightarrow> real list \<Rightarrow> matrix" where
  "divide_columns m row = map (\<lambda>r. map2 (\<lambda>v c. v / c) r row) m"

text \<open>\<open>zeros[ix] = vals\<close>: assignment at an index array.\<close>

definition scatter :: "real list \<Rightarrow> nat list \<Rightarrow> real list \<Rightarrow> real list" where
  "scatter zeros ix vals = fold (\<lambda>(i, v) a. a[i := v]) (zip ix vals) zeros"

record vi_tabs =
  pxy :: "real option list list"
  px :: "real option list"
  py :: "real option list"
  hxgy :: "real option list"
  hygx :: "real option list"
  lpygx :: "real option list"
  lpxgy :: "real option list"

definition vi_tables :: "nat ndarray \<Rightarrow> nat ndarray \<Rightarrow> error + vi_tabs" where
  "vi_tables im1 im2 =
     (case im1 of
        Arr1 _ \<Rightarrow> Inl AxisError
      | Arr2 rows \<Rightarrow>
          let cont = map (map real) rows;
              total = sum_all cont
          in if total = 0 \<and> concat rows \<noteq> []
             then Inr \<lparr>pxy = map (map (\<lambda>_. None)) cont,
                       px = replicate (length cont) None,
                       py = replicate (ncols cont) None,
                       hxgy = replicate (ncols cont) None,
                       hygx = replicate (length cont) None,
                       lpygx = replicate (length cont) None,
                       lpxgy = replicate (ncols cont) None\<rparr>
             else
               let pxy = map (map (\<lambda>v. v / total)) cont;
                   px = row_sums pxy;
                   py = col_sums pxy;
                   nzx = filter (\<lambda>i. px ! i \<noteq> 0) [0..<length px];
                   nzy = filter (\<lambda>j. py ! j \<noteq> 0) [0..<length py];
                   nzpx = map (\<lambda>i. px ! i) nzx;
                   nzpy = map (\<lambda>j. py ! j) nzy;
                   nzpxy = map (\<lambda>i. map (\<lambda>j. pxy ! i ! j) nzy) nzx;
                   lpygx = scatter (replicate (length px) 0) nzx
                             (row_sums (xlogx (divide_rows nzpxy nzpx)));
                   hygx = map2 (\<lambda>p l. - (p * l)) px lpygx;
                   lpxgy = scatter (replicate (length py) 0) nzy
                             (col_sums (xlogx (divide_columns nzpxy nzpy)));
                   hxgy = map2 (\<lambda>p l. - (p * l)) py lpxgy
               in Inr \<lparr>pxy = map (map Some) pxy, px = map Some px, py = map Some py,
                       hxgy = map Some hxgy, hygx = map Some hygx,
                       lpygx = map Some lpygx, lpxgy = map Some lpxgy\<rparr>)"

text \<open>The sum of a float array: \<open>nan\<close> as soon as one entry is.\<close>

definition fsum :: "real option list \<Rightarrow> real option" where
  "fsum xs = (if None \<in> set xs then None else Some (sum_list (map the xs)))"

definition compare_split_vi :: "nat ndarray \<Rightarrow> nat ndarray \<Rightarrow> error + (real option \<times> real option)" where
  "compare_split_vi im1 im2 =
     ebind (vi_tables im1 im2) (\<lambda>t. Inr (fsum (hygx t), fsum (hxgy t)))"

definition compare_vi :: "nat ndarray \<Rightarrow> nat ndarray \<Rightarrow> real \<times> real \<Rightarrow> error + real option" where
  "compare_vi im1 im2 weights =
     ebind (compare_split_vi im1 im2) (\<lambda>(m, s).
       Inr (case (m, s) of
              (Some m', Some s') \<Rightarrow> Some (fst weights * m' + snd weights * s')
            | _ \<Rightarrow> None))"

subsection \<open>The quantities of the specification, by counting positions\<close>

text \<open>
  The specification speaks of voxel counts.  For the flattened test field \<open>s\<close> and the
  flattened true field \<open>t\<close>: \<open>n_pairs s t i j\<close> is the number of positions labelled \<open>i\<close>
  in the test field and \<open>j\<close> in the true field, neither being background; \<open>n_both\<close>
  counts the positions where both fields are non-zero; \<open>n_test\<close> and \<open>n_true\<close> count the
  non-background positions of one test segment, respectively of one true segment.
\<close>

definition n_pairs :: "nat list \<Rightarrow> nat list \<Rightarrow> nat \<Rightarrow> nat \<Rightarrow> nat" where
  "n_pairs s t i j = length (filter (\<lambda>(a, b). a = i \<and> b = j \<and> a \<noteq> 0 \<and> b \<noteq> 0) (zip s t))"

definition n_both :: "nat list \<Rightarrow> nat list \<Rightarrow> nat" where
  "n_both s t = length (filter (\<lambda>(a, b). a \<noteq> 0 \<and> b \<noteq> 0) (zip s t))"

definition n_test :: "nat list \<Rightarrow> nat list \<Rightarrow> nat \<Rightarrow> nat" where
  "n_test s t i = length (filter (\<lambda>(a, b). a = i \<and> a \<noteq> 0 \<and> b \<noteq> 0) (zip s t))"

definition n_true :: "nat list \<Rightarrow> nat list \<Rightarrow> nat \<Rightarrow> nat" where
  "n_true s t j = length (filter (\<lambda>(a, b). b = j \<and> a \<noteq> 0 \<and> b \<noteq> 0) (zip s t))"

text \<open>
  A test segment \<open>i\<close> overlaps a true segment \<open>j\<close> when their common positions survive
  the size threshold; the merge count of the specification sums, over the test segments,
  the number of true segments overlapped, minus one; the split count is the symmetric
  sum over the true segments.
\<close>

definition overlaps :: "real \<Rightarrow> nat list \<Rightarrow> nat list \<Rightarrow> nat \<Rightarrow> nat \<Rightarrow> bool" where
  "overlaps thr s t i j = (0 < n_pairs s t i j \<and> thr < real (n_pairs s t i j))"

definition excess_over_test_rows :: "real \<Rightarrow> nat list \<Rightarrow> nat list \<Rightarrow> real" where
  "excess_over_test_rows thr s t =
     sum_list (map (\<lambda>i. real (length (filter (\<lambda>j. overlaps thr s t i j)
                                              [1..<Suc (Max (set t))])) - 1)
                   [1..<Suc (Max (set s))])"

definition excess_over_true_columns :: "real \<Rightarrow> nat list \<Rightarrow> nat list \<Rightarrow> real" where
  "excess_over_true_columns thr s t =
     sum_list (map (\<lambda>j. real (length (filter (\<lambda>i. overlaps thr s t i j)
                                              [1..<Suc (Max (set s))])) - 1)
                   [1..<Suc (Max (set t))])"

text \<open>The sums of squares that the adapted Rand error is built from.\<close>

definition sum_p_ij_spec :: "nat list \<Rightarrow> nat list \<Rightarrow> nat" where
  "sum_p_ij_spec s t =
     sum_list (map (\<lambda>i. sum_list (map (\<lambda>j. (n_pairs s t i j)\<^sup>2) [0..<Suc (Max (set t))]))
                   [0..<Suc (Max (set s))])"

definition sum_a_spec :: "nat list \<Rightarrow> nat list \<Rightarrow> nat" where
  "sum_a_spec s t = sum_list (map (\<lambda>j. (n_true s t j)\<^sup>2) [0..<Suc (Max (set t))])"

definition sum_b_spec :: "nat list \<Rightarrow> nat list \<Rightarrow> nat" where
  "sum_b_spec s t = sum_list (map (\<lambda>i. (n_test s t i)\<^sup>2) [0..<Suc (Max (set s))])"

text \<open>A sample collaborator for the threshold sweep: all foreground is one component.\<close>

definition one_component :: "bool ndarray \<Rightarrow> nat ndarray \<times> nat" where
  "one_component foreground = (map_ndarray (\<lambda>b. if b then 1 else 0) foreground, 1)"

section \<open>Properties\<close>

subsection \<open>The documented end-to-end scenario\<close>

text \<open>
  C3 (as stated): for \<open>true = [1,1,2,2,3,3]\<close> and \<open>test = [1,1,1,2,2,3]\<close> with
  \<open>size_threshold = 0\<close> the result is \<open>(1.0, 1.0)\<close>.  The code does not return that
  pair: test segment 1 overlaps true segments 1 and 2, and test segment 2 overlaps true
  segments 2 and 3, so two rows of the table carry two overlaps each.
\<close>

theorem C3_scenario_not_one_one:
  "compare_raw_edit_distance (Arr1 [1,1,2,2,3,3]) (Arr1 [1,1,1,2,2,3]) 0 \<noteq> Inr (1, 1)"
  by code_simp

text \<open>
  C3 (amended): on the same inputs the call returns without error and its first
  component, the number of false merges, is \<open>2.0\<close>.
\<close>

theorem C3_scenario_two_merges:
  "map_sum id fst (compare_raw_edit_distance (Arr1 [1,1,2,2,3,3]) (Arr1 [1,1,1,2,2,3]) 0)
     = Inr 2"
  by code_simp

subsection \<open>Variation of information on the code's table\<close>

lemma upt_0_2: "[0..<2] = [0, Suc 0]"
  by (simp add: upt_conv_Cons numeral_2_eq_2)

lemma vi_tables_ones:
  "vi_tables (Arr2 [[1,1],[1,1]]) im2 =
     Inr \<lparr>pxy = [[Some (1 / 4), Some (1 / 4)], [Some (1 / 4), Some (1 / 4)]],
          px = [Some (1 / 2), Some (1 / 2)], py = [Some (1 / 2), Some (1 / 2)],
          hxgy = [Some (1 / 2), Some (1 / 2)], hygx = [Some (1 / 2), Some (1 / 2)],
          lpygx = [Some (- 1), Some (- 1)], lpxgy = [Some (- 1), Some (- 1)]\<rparr>"
  apply (simp add: vi_tables_def sum_all_def row_sums_def col_sums_def ncols_def Let_def upt_0_2)
  apply (simp add: xlogx_def divide_rows_def divide_columns_def scatter_def log_divide)
  done

text \<open>
  C1 (claim: \<open>compare_vi(x, x) = 0.0\<close> and \<open>compare_split_vi(x, x) = (0.0, 0.0)\<close> for
  every label field \<open>x\<close>).  The code evaluated at the 2 by 2 field whose every voxel is
  labelled 1: \<open>vi_tables\<close> reads the field itself as a contingency table with four equal
  cells, each conditional entropy is one bit, and the variation of information is 2.
\<close>

theorem C1_self_vi_of_constant_field:
  "compare_split_vi (Arr2 [[1,1],[1,1]]) (Arr2 [[1,1],[1,1]]) = Inr (Some 1, Some 1)
   \<and> compare_vi (Arr2 [[1,1],[1,1]]) (Arr2 [[1,1],[1,1]]) (1, 1) = Inr (Some 2)"
  unfolding compare_vi_def compare_split_vi_def vi_tables_ones
  by (simp add: ebind_def fsum_def)

text \<open>
  C2: the result of \<open>compare_split_vi\<close>, and hence of \<open>compare_vi\<close>, is the same for
  every second argument, errors included: \<open>vi_tables\<close> never reads it.
\<close>

theorem C2_second_argument_ignored:
  "compare_split_vi im1 im2 = compare_split_vi im1 im2'
   \<and> compare_vi im1 im2 weights = compare_vi im1 im2' weights"
  by (simp add: compare_split_vi_def compare_vi_def vi_tables_def)

text \<open>
  C5 (claim: every public entry point raises a shape-mismatch error on inputs of
  different shapes).  \<open>compare_split_vi\<close> and \<open>compare_vi\<close> do not call the
  compatibility check that the other three entry points start with: given a 2 by 2 field
  and a field of three voxels they return a value.
\<close>

theorem C5_vi_accepts_shape_mismatch:
  "shape (Arr2 [[1,1],[1,1::nat]]) \<noteq> shape (Arr1 [1,2,3::nat])
   \<and> compare_split_vi (Arr2 [[1,1],[1,1]]) (Arr1 [1,2,3]) = Inr (Some 1, Some 1)
   \<and> compare_vi (Arr2 [[1,1],[1,1]]) (Arr1 [1,2,3]) (1, 1) = Inr (Some 2)"
  unfolding compare_vi_def compare_split_vi_def vi_tables_ones
  by (simp add: ebind_def fsum_def)

subsection \<open>Relabelling\<close>

text \<open>
  C7 (claim: \<open>forward_map[x] = relabeled\<close> and \<open>inverse_map[relabeled] = x\<close> for every
  field, the dense fast path included).  The code evaluated at \<open>x = [1, 2]\<close>: the fast
  path returns the unique values \<open>[1, 2]\<close> as both maps, without the leading 0 that the
  general path adds when 0 is not a label, so \<open>forward_map[x]\<close> reads index 2 of an
  array of length 2.
\<close>

theorem C7_fast_path_maps_too_short:
  "relabel_from_one (Arr1 [1,2]) = Inr (Arr1 [1,2], [1,2], [1,2])
   \<and> take_ix [1,2::nat] (Arr1 [1,2]) = Inl IndexError"
  by code_simp

subsection \<open>The cells of the contingency table\<close>

lemma coo_cell_Cons:
  "coo_cell ((d, r, c) # es) i j = (if r = i \<and> c = j then d else 0) + coo_cell es i j"
  by (simp add: coo_cell_def)

lemma n_pairs_Cons:
  "n_pairs (a # s) (b # t) i j =
     (if a = i \<and> b = j \<and> a \<noteq> 0 \<and> b \<noteq> 0 then 1 else 0) + n_pairs s t i j"
  by (simp add: n_pairs_def)

lemma coo_cell_n_pairs:
  "length s = length t \<Longrightarrow>
   coo_cell (zip (map (\<lambda>ig. if ig then 0 else 1) (map2 (\<lambda>a b. a = 0 \<or> b = 0) s t)) (zip s t)) i j
     = real (n_pairs s t i j)"
proof (induction s t rule: list_induct2)
  case Nil
  then show ?case by (simp add: coo_cell_def n_pairs_def)
next
  case (Cons a s b t)
  then show ?case by (auto simp add: coo_cell_Cons n_pairs_Cons)
qed

lemma contingency_table_cells:
  assumes "length (ravel im_true) = length (ravel im_test)" "ravel im_test \<noteq> []"
  shows "contingency_table im_true im_test =
           Inr (map (\<lambda>i. map (\<lambda>j. real (n_pairs (ravel im_test) (ravel im_true) i j))
                             [0..<Suc (Max (set (ravel im_true)))])
                    [0..<Suc (Max (set (ravel im_test)))])"
proof -
  have "ravel im_true \<noteq> []" using assms by auto
  then show ?thesis
    using assms by (simp add: contingency_table_def coo_tocsr_def Let_def coo_cell_n_pairs
        del: upt_Suc map_map)
qed

lemma contingency_table_error:
  "length (ravel im_true) \<noteq> length (ravel im_test) \<or> ravel im_test = []
   \<Longrightarrow> \<exists>e. contingency_table im_true im_test = Inl e"
  by (auto simp add: contingency_table_def coo_tocsr_def Let_def)

lemma sum_list_indicator_upt:
  "sum_list (map (\<lambda>j. if b = j \<and> P then (1::nat) else 0) [0..<n]) = (if b < n \<and> P then 1 else 0)"
  by (induction n) auto

lemma n_pairs_sum_cols:
  "\<forall>b \<in> set t. b < n \<Longrightarrow> sum_list (map (\<lambda>j. n_pairs s t i j) [0..<n]) = n_test s t i"
proof (induction s arbitrary: t)
  case Nil
  then show ?case by (simp add: n_pairs_def n_test_def)
next
  case (Cons a s)
  show ?case
  proof (cases t)
    case Nil
    then show ?thesis by (simp add: n_pairs_def n_test_def)
  next
    case (Cons b t')
    have "sum_list (map (\<lambda>j. n_pairs (a # s) (b # t') i j) [0..<n])
        = sum_list (map (\<lambda>j. if b = j \<and> (a = i \<and> a \<noteq> 0 \<and> b \<noteq> 0) then (1::nat) else 0) [0..<n])
          + sum_list (map (\<lambda>j. n_pairs s t' i j) [0..<n])"
      by (simp add: n_pairs_Cons sum_list_addf conj_ac cong: if_cong)
    also have "\<dots> = (if b < n \<and> (a = i \<and> a \<noteq> 0 \<and> b \<noteq> 0) then 1 else 0) + n_test s t' i"
      using Cons.IH[of t'] Cons.prems Cons by (simp only: sum_list_indicator_upt) simp
    also have "\<dots> = n_test (a # s) (b # t') i"
      using Cons.prems Cons by (simp add: n_test_def)
    finally show ?thesis using Cons by simp
  qed
qed

lemma count_partition:
  "\<forall>p \<in> set ps. f p < n \<Longrightarrow>
   sum_list (map (\<lambda>k. length (filter (\<lambda>p. f p = k \<and> P p) ps)) [0..<n]) = length (filter P ps)"
proof (induction ps)
  case Nil
  then show ?case by simp
next
  case (Cons p ps)
  have step: "\<And>k. length (filter (\<lambda>q. f q = k \<and> P q) (p # ps))
      = (if f p = k \<and> P p then 1 else 0) + length (filter (\<lambda>q. f q = k \<and> P q) ps)"
    by simp
  have "sum_list (map (\<lambda>k. length (filter (\<lambda>q. f q = k \<and> P q) (p # ps))) [0..<n])
      = sum_list (map (\<lambda>k. if f p = k \<and> P p then (1::nat) else 0) [0..<n])
        + sum_list (map (\<lambda>k. length (filter (\<lambda>q. f q = k \<and> P q) ps)) [0..<n])"
    by (simp only: step sum_list_addf)
  also have "\<dots> = (if f p < n \<and> P p then 1 else 0) + length (filter P ps)"
    using Cons by (simp only: sum_list_indicator_upt) simp
  finally show ?case using Cons.prems by simp
qed

lemma n_pairs_sum_rows:
  assumes "\<forall>a \<in> set s. a < n"
  shows "sum_list (map (\<lambda>i. n_pairs s t i j) [0..<n]) = n_true s t j"
proof -
  have bound: "\<forall>p \<in> set (zip s t). fst p < n"
    using assms by (auto dest: set_zip_leftD)
  have "(\<lambda>i. n_pairs s t i j)
      = (\<lambda>k. length (filter (\<lambda>p. fst p = k \<and> (snd p = j \<and> fst p \<noteq> 0 \<and> snd p \<noteq> 0)) (zip s t)))"
    by (rule ext, simp add: n_pairs_def case_prod_unfold)
  moreover have "n_true s t j
      = length (filter (\<lambda>p. snd p = j \<and> fst p \<noteq> 0 \<and> snd p \<noteq> 0) (zip s t))"
    by (simp add: n_true_def case_prod_unfold)
  ultimately show ?thesis
    using count_partition[OF bound, of "\<lambda>p. snd p = j \<and> fst p \<noteq> 0 \<and> snd p \<noteq> 0"] by simp
qed

lemma n_test_sum:
  assumes "\<forall>a \<in> set s. a < n"
  shows "sum_list (map (\<lambda>i. n_test s t i) [0..<n]) = n_both s t"
proof -
  have bound: "\<forall>p \<in> set (zip s t). fst p < n"
    using assms by (auto dest: set_zip_leftD)
  have "(\<lambda>i. n_test s t i)
      = (\<lambda>k. length (filter (\<lambda>p. fst p = k \<and> (fst p \<noteq> 0 \<and> snd p \<noteq> 0)) (zip s t)))"
    by (rule ext, simp add: n_test_def case_prod_unfold)
  moreover have "n_both s t = length (filter (\<lambda>p. fst p \<noteq> 0 \<and> snd p \<noteq> 0) (zip s t))"
    by (simp add: n_both_def case_prod_unfold)
  ultimately show ?thesis
    using count_partition[OF bound, of "\<lambda>p. fst p \<noteq> 0 \<and> snd p \<noteq> 0"] by simp
qed

lemma Max_bound: "xs \<noteq> [] \<Longrightarrow> \<forall>a \<in> set xs. a < Suc (Max (set xs))"
  by (simp add: less_Suc_eq_le)

lemma n_pairs_zero_left [simp]: "n_pairs s t 0 j = 0"
  by (auto simp add: n_pairs_def filter_empty_conv)

lemma n_pairs_zero_right [simp]: "n_pairs s t i 0 = 0"
  by (auto simp add: n_pairs_def filter_empty_conv)

lemma size_rect: "rect a \<Longrightarrow> size_of a = prod_list (shape a)"
proof (cases a)
  case (Arr1 xs)
  then show ?thesis by (simp add: size_of_def)
next
  case (Arr2 rows)
  assume r: "rect a"
  have "\<forall>r \<in> set rows. length r = c \<Longrightarrow> length (concat rows) = length rows * c" for c
    by (induction rows) auto
  from this[of "length (hd rows)"] r Arr2 show ?thesis
    by (cases rows) (auto simp add: rect_def size_of_def list_all_iff)
qed

lemma same_size:
  "rect a \<Longrightarrow> rect b \<Longrightarrow> shape a = shape b \<Longrightarrow> length (ravel a) = length (ravel b)"
  using size_rect[of a] size_rect[of b] by (simp add: size_of_def)

lemma real_sum_list: "sum_list (map (\<lambda>x. real (f x)) xs) = real (sum_list (map f xs))"
  by (induction xs) auto

lemma sum_all_table:
  "sum_all (map (\<lambda>i. map (\<lambda>j. real (f i j)) [0..<m]) [0..<n])
     = real (sum_list (map (\<lambda>i. sum_list (map (\<lambda>j. f i j) [0..<m])) [0..<n]))"
  by (simp add: sum_all_def comp_def real_sum_list del: upt_Suc)

lemma contingency_table_total:
  assumes "length (ravel im_true) = length (ravel im_test)" "ravel im_test \<noteq> []"
    and "contingency_table im_true im_test = Inr c"
  shows "sum_all c = real (n_both (ravel im_test) (ravel im_true))"
proof -
  let ?s = "ravel im_test" and ?t = "ravel im_true"
  have t: "?t \<noteq> []" using assms by auto
  have c: "c = map (\<lambda>i. map (\<lambda>j. real (n_pairs ?s ?t i j)) [0..<Suc (Max (set ?t))])
                   [0..<Suc (Max (set ?s))]"
    using contingency_table_cells[OF assms(1,2)] assms(3) by simp
  have "sum_list (map (\<lambda>i. sum_list (map (\<lambda>j. n_pairs ?s ?t i j) [0..<Suc (Max (set ?t))]))
                      [0..<Suc (Max (set ?s))])
      = sum_list (map (\<lambda>i. n_test ?s ?t i) [0..<Suc (Max (set ?s))])"
    using n_pairs_sum_cols[OF Max_bound[OF t]] by simp
  also have "\<dots> = n_both ?s ?t"
    by (rule n_test_sum[OF Max_bound[OF assms(2)]])
  finally show ?thesis
    unfolding c sum_all_table by simp
qed

text \<open>
  C8: for two label fields of identical shape, the entries of the contingency table sum
  to the number of positions where both fields are non-zero, and every entry in row 0 or
  in column 0 is zero.  The table exists whenever the fields are not empty (the sparse
  constructor cannot infer a shape from empty index arrays).
\<close>

theorem C8_contingency_table_total_and_background:
  assumes "rect im_true" "rect im_test" "shape im_true = shape im_test"
  shows "(ravel im_test \<noteq> [] \<longrightarrow> (\<exists>c. contingency_table im_true im_test = Inr c))
       \<and> (\<forall>c. contingency_table im_true im_test = Inr c \<longrightarrow>
             sum_all c = real (n_both (ravel im_test) (ravel im_true))
           \<and> (\<forall>i < length c. c ! i ! 0 = 0)
           \<and> (\<forall>j < length (c ! 0). c ! 0 ! j = 0))"
proof -
  let ?s = "ravel im_test" and ?t = "ravel im_true"
  have len: "length ?t = length ?s"
    using assms by (rule same_size)
  show ?thesis
  proof (cases "?s = []")
    case True
    then have "\<exists>e. contingency_table im_true im_test = Inl e"
      by (intro contingency_table_error) simp
    then show ?thesis using True by auto
  next
    case False
    note cells = contingency_table_cells[OF len False]
    have tot: "contingency_table im_true im_test = Inr c \<Longrightarrow>
               sum_all c = real (n_both ?s ?t)" for c
      using contingency_table_total[OF len False] by simp
    have col0: "contingency_table im_true im_test = Inr c \<Longrightarrow> i < length c \<Longrightarrow> c ! i ! 0 = 0" for c i
      using cells by (auto simp del: upt_Suc simp add: nth_append)
    have row0: "contingency_table im_true im_test = Inr c \<Longrightarrow> j < length (c ! 0) \<Longrightarrow> c ! 0 ! j = 0" for c j
      using cells by (auto simp del: upt_Suc simp add: nth_append)
    show ?thesis using cells tot col0 row0 by blast
  qed
qed

theorem C8_contingency_table_witness:
  "rect (Arr1 [1,0,2::nat]) \<and> rect (Arr1 [1,1,0::nat])
   \<and> shape (Arr1 [1,0,2::nat]) = shape (Arr1 [1,1,0::nat])
   \<and> (\<exists>c. contingency_table (Arr1 [1,0,2]) (Arr1 [1,1,0]) = Inr c \<and> sum_all c = 1
          \<and> c ! 0 ! 0 = 0)"
proof -
  have h: "rect (Arr1 [1,0,2::nat])" "rect (Arr1 [1,1,0::nat])"
    "shape (Arr1 [1,0,2::nat]) = shape (Arr1 [1,1,0::nat])"
    by (simp_all add: rect_def)
  have n: "n_both (ravel (Arr1 [1,1,0])) (ravel (Arr1 [1,0,2])) = 1"
    by (simp add: n_both_def)
  from C8_contingency_table_total_and_background[OF h]
  obtain c where c: "contingency_table (Arr1 [1,0,2]) (Arr1 [1,1,0]) = Inr c"
    by auto
  have l: "0 < length c" using c by (auto simp add: contingency_table_def coo_tocsr_def Let_def)
  with C8_contingency_table_total_and_background[OF h] c n
  show ?thesis using h by auto
qed

subsection \<open>The adapted Rand error\<close>

lemma ncols_table: "ncols (map (\<lambda>i. map (g i) [0..<m]) [0..<Suc n]) = m"
  by (simp add: ncols_def upt_conv_Cons del: upt_Suc)

lemma col_sums_table:
  "col_sums (map (\<lambda>i. map (\<lambda>j. g i j) [0..<m]) [0..<Suc n])
     = map (\<lambda>j. sum_list (map (\<lambda>i. g i j) [0..<Suc n])) [0..<m]"
  unfolding col_sums_def ncols_table
  by (rule map_cong) (simp_all add: comp_def del: upt_Suc cong: map_cong)

lemma row_sums_table:
  "row_sums (map (\<lambda>i. map (\<lambda>j. g i j) [0..<m]) [0..<n])
     = map (\<lambda>i. sum_list (map (\<lambda>j. g i j) [0..<m])) [0..<n]"
  by (simp add: row_sums_def comp_def del: upt_Suc)

lemma sum_all_squares_table:
  "sum_all (map (map (\<lambda>v. v * v)) (map (\<lambda>i. map (\<lambda>j. real (f i j)) [0..<m]) [0..<n]))
     = real (sum_list (map (\<lambda>i. sum_list (map (\<lambda>j. (f i j)\<^sup>2) [0..<m])) [0..<n]))"
  by (simp add: sum_all_def comp_def real_sum_list[symmetric] power2_eq_square del: upt_Suc)

text \<open>
  C6: on non-empty fields of identical shape \<open>compare_adapted_rand_error\<close> returns
  \<open>(1 - 2 p r / (p + r), p, r)\<close> with \<open>p = (sum_p_ij - n) / (sum_a - n)\<close> and
  \<open>r = (sum_p_ij - n) / (sum_b - n)\<close>, where \<open>n\<close> is the number of elements of the test
  image, background included, \<open>sum_p_ij\<close> is the sum of the squared pair counts,
  \<open>sum_a\<close> the sum of the squared sizes of the true segments and \<open>sum_b\<close> that of the
  test segments (sizes counted where both fields are non-zero).  Each quotient is
  \<open>nan\<close> or infinite when its divisor is zero.
\<close>

theorem C6_adapted_rand_error_formula:
  assumes "rect im_true" "rect im_test" "shape im_true = shape im_test" "ravel im_test \<noteq> []"
  shows "compare_adapted_rand_error im_true im_test =
    (let s = ravel im_test; t = ravel im_true;
         n = real (length s);
         precision = fdiv (real (sum_p_ij_spec s t) - n) (real (sum_a_spec s t) - n);
         recall = fdiv (real (sum_p_ij_spec s t) - n) (real (sum_b_spec s t) - n)
     in Inr (map_option (\<lambda>fscore. 1 - fscore)
               (case (precision, recall) of
                  (Some p, Some r) \<Rightarrow> fdiv (2 * p * r) (p + r)
                | _ \<Rightarrow> None),
             precision, recall))"
proof -
  let ?s = "ravel im_test" and ?t = "ravel im_true"
  let ?c = "map (\<lambda>i. map (\<lambda>j. real (n_pairs ?s ?t i j)) [0..<Suc (Max (set ?t))])
                [0..<Suc (Max (set ?s))]"
  have len: "length ?t = length ?s"
    using assms(1-3) by (rule same_size)
  then have t: "?t \<noteq> []" using assms(4) by auto
  have cells: "contingency_table im_true im_test = Inr ?c"
    by (rule contingency_table_cells[OF len assms(4)])
  have p: "sum_all (map (map (\<lambda>v. v * v)) ?c) = real (sum_p_ij_spec ?s ?t)"
    unfolding sum_all_squares_table sum_p_ij_spec_def ..
  have "col_sums ?c = map (\<lambda>j. real (n_true ?s ?t j)) [0..<Suc (Max (set ?t))]"
    unfolding col_sums_table real_sum_list n_pairs_sum_rows[OF Max_bound[OF assms(4)]] ..
  then have a: "sum_list (map (\<lambda>v. v * v) (col_sums ?c)) = real (sum_a_spec ?s ?t)"
    by (simp add: sum_a_spec_def comp_def real_sum_list[symmetric] power2_eq_square del: upt_Suc)
  have "row_sums ?c = map (\<lambda>i. real (n_test ?s ?t i)) [0..<Suc (Max (set ?s))]"
    unfolding row_sums_table real_sum_list n_pairs_sum_cols[OF Max_bound[OF t]] ..
  then have b: "sum_list (map (\<lambda>v. v * v) (row_sums ?c)) = real (sum_b_spec ?s ?t)"
    by (simp add: sum_b_spec_def comp_def real_sum_list[symmetric] power2_eq_square del: upt_Suc)
  show ?thesis
    unfolding compare_adapted_rand_error_def assert_compatible_def ebind_def cells Let_def
    by (simp only: assms(3) sum.case p a b size_of_def) simp
qed


theorem C6_adapted_rand_error_witness:
  "rect (Arr1 [1,1,2,2::nat]) \<and> rect (Arr1 [1,1,1,2::nat])
   \<and> shape (Arr1 [1,1,2,2::nat]) = shape (Arr1 [1,1,1,2::nat])
   \<and> ravel (Arr1 [1,1,1,2::nat]) \<noteq> []
   \<and> compare_adapted_rand_error (Arr1 [1,1,2,2]) (Arr1 [1,1,1,2])
       = Inr (Some (3 / 5), Some (1 / 2), Some (1 / 3))"
proof -
  have h: "rect (Arr1 [1,1,2,2::nat])" "rect (Arr1 [1,1,1,2::nat])"
    "shape (Arr1 [1,1,2,2::nat]) = shape (Arr1 [1,1,1,2::nat])"
    "ravel (Arr1 [1,1,1,2::nat]) \<noteq> []"
    by (simp_all add: rect_def)
  have "compare_adapted_rand_error (Arr1 [1,1,2,2]) (Arr1 [1,1,1,2])
       = Inr (Some (3 / 5), Some (1 / 2), Some (1 / 3))"
    unfolding C6_adapted_rand_error_formula[OF h] by code_simp
  with h show ?thesis by blast
qed

subsection \<open>The edit distance\<close>

lemma ravel_map_ndarray: "ravel (map_ndarray f a) = map f (ravel a)"
  by (cases a) (simp_all add: map_concat)

lemma length_fold_update:
  "length (fold (\<lambda>(l, v) fm. fm[l := v]) ps fm) = length fm"
  by (induction ps arbitrary: fm) (auto simp add: case_prod_unfold)

lemma set_unique: "set (unique xs) = set xs"
  by (simp add: unique_def)

lemma relabel_from_one_returns:
  assumes "ravel a \<noteq> []"
  shows "\<exists>a' fw iv. relabel_from_one a = Inr (a', fw, iv) \<and> length (ravel a') = length (ravel a)"
proof -
  let ?labels = "unique (ravel a)"
  let ?m = "Max (set ?labels)"
  have ne: "?labels \<noteq> []"
    using assms set_unique[of "ravel a"] by (metis set_empty)
  have inb: "list_all (\<lambda>i. i < Suc ?m) (ravel a)"
    by (simp add: list_all_iff set_unique less_Suc_eq_le)
  show ?thesis
    using ne inb
    by (auto simp add: relabel_from_one_def Let_def ebind_def take_ix_def length_fold_update
        ravel_map_ndarray)
qed

lemma collapse_cell:
  "(let v1 = (if real n \<le> thr then 0 else real n) in if v1 \<noteq> 0 then v1 / v1 else v1)
     = (if 0 < n \<and> thr < real n then 1 else 0)"
  by (auto simp add: Let_def)

lemma sum_list_indicator_filter:
  "sum_list (map (\<lambda>j. if P j then (1::real) else 0) xs) = real (length (filter P xs))"
  by (induction xs) auto

lemma not_overlaps_background [simp]: "\<not> overlaps thr s t i 0"
  by (simp add: overlaps_def)

lemma overlapped_count:
  "sum_list (map (\<lambda>j. if overlaps thr s t i j then (1::real) else 0) [0..<Suc m])
     = real (length (filter (\<lambda>j. overlaps thr s t i j) [1..<Suc m]))"
proof -
  have "[0..<Suc m] = 0 # [1..<Suc m]"
    by (simp add: upt_conv_Cons del: upt_Suc)
  then show ?thesis
    by (simp only: sum_list_indicator_filter) simp
qed

lemma false_merges_table:
  "sum_all (drop 1 (map (map (\<lambda>v. v - 1)) (sum_axis1
       (map (map (\<lambda>v. if v \<noteq> 0 then v / v else v))
         (map (map (\<lambda>v. if v \<le> thr then 0 else v))
            (map (\<lambda>i. map (\<lambda>j. real (n_pairs s t i j)) [0..<Suc m]) [0..<Suc n]))))))
     = sum_list (map (\<lambda>i. real (length (filter (\<lambda>j. overlaps thr s t i j) [1..<Suc m])) - 1)
                     [1..<Suc n])"
proof -
  have cell: "(\<lambda>v. if v \<noteq> 0 then v / v else v) ((\<lambda>v. if v \<le> thr then 0 else v) (real (n_pairs s t i j)))
      = (if overlaps thr s t i j then 1 else 0)" for i j
    using collapse_cell[of "n_pairs s t i j" thr] by (simp add: overlaps_def Let_def)
  have "sum_all (drop 1 (map (map (\<lambda>v. v - 1)) (sum_axis1
       (map (map (\<lambda>v. if v \<noteq> 0 then v / v else v))
         (map (map (\<lambda>v. if v \<le> thr then 0 else v))
            (map (\<lambda>i. map (\<lambda>j. real (n_pairs s t i j)) [0..<Suc m]) [0..<Suc n]))))))
      = sum_list (map (\<lambda>i. sum_list (map (\<lambda>j. if overlaps thr s t i j then (1::real) else 0) [0..<Suc m]) - 1)
                     [1..<Suc n])"
    by (simp add: sum_all_def sum_axis1_def row_sums_def drop_map comp_def cell
          del: upt_Suc)
  then show ?thesis
    by (simp only: overlapped_count)
qed


text \<open>
  The split count is taken from the one-row matrix of column sums, of which \<open>[1:]\<close>
  keeps nothing: whenever the call returns, the second component is zero.
\<close>

lemma false_splits_row_dropped:
  "sum_all (drop 1 (map (map (\<lambda>v. v - 1)) (sum_axis0 r))) = 0"
  by (simp add: sum_axis0_def sum_all_def)

lemma compare_raw_edit_distance_false_splits:
  assumes "compare_raw_edit_distance im_true im_test size_threshold = Inr (false_merges, false_splits)"
  shows "false_splits = 0"
  using assms
  unfolding compare_raw_edit_distance_def ebind_def Let_def false_splits_row_dropped
  by (auto split: sum.splits prod.splits)

text \<open>
  C4 (as stated): \<open>false_splits\<close> is the sum over the test-segment rows of the number
  of true segments overlapped, minus one, and \<open>false_merges\<close> is the symmetric sum over
  the true-segment columns.  For \<open>true = [1,1,1]\<close> and \<open>test = [1,2,3]\<close> the sum over
  the true-segment columns is 2, and the code reports no merge: it takes \<open>false_merges\<close>
  from the row sums of the table, whose rows are the test segments.
\<close>

theorem C4_claimed_sums_differ:
  "compare_raw_edit_distance (Arr1 [1,1,1]) (Arr1 [1,2,3]) 0 = Inr (0, 0)
   \<and> map_sum id fst (relabel_from_one (Arr1 [1,2,3])) = Inr (Arr1 [1,2,3])
   \<and> map_sum id fst (relabel_from_one (Arr1 [1,1,1])) = Inr (Arr1 [1,1,1])
   \<and> excess_over_true_columns 0 [1,2,3] [1,1,1] = 2
   \<and> excess_over_test_rows 0 [1,2,3] [1,1,1] = 0"
  by code_simp

text \<open>
  C4 (amended): on non-empty fields of identical shape the call returns, and
  \<open>false_merges\<close>, the first component, is the sum over the rows of the relabelled test
  segments (labels above 0) of the number of relabelled true segments that the test
  segment overlaps in more than \<open>size_threshold\<close> positions, minus one.
\<close>

theorem C4_false_merges_over_test_rows:
  assumes "rect im_true" "rect im_test" "shape im_true = shape im_test" "ravel im_test \<noteq> []"
  shows "\<exists>test' fwt ivt true' fwr ivr false_splits.
           relabel_from_one im_test = Inr (test', fwt, ivt)
         \<and> relabel_from_one im_true = Inr (true', fwr, ivr)
         \<and> compare_raw_edit_distance im_true im_test size_threshold
             = Inr (excess_over_test_rows size_threshold (ravel test') (ravel true'),
                    false_splits)"
proof -
  have len: "length (ravel im_true) = length (ravel im_test)"
    using assms(1-3) by (rule same_size)
  then have t: "ravel im_true \<noteq> []" using assms(4) by auto
  from relabel_from_one_returns[OF assms(4)] obtain test' fwt ivt where
    rs: "relabel_from_one im_test = Inr (test', fwt, ivt)"
    and ls: "length (ravel test') = length (ravel im_test)" by blast
  from relabel_from_one_returns[OF t] obtain true' fwr ivr where
    rt: "relabel_from_one im_true = Inr (true', fwr, ivr)"
    and lt: "length (ravel true') = length (ravel im_true)" by blast
  have len': "length (ravel true') = length (ravel test')"
    using len ls lt by simp
  have ne': "ravel test' \<noteq> []"
    using ls assms(4) by auto
  note cells = contingency_table_cells[OF len' ne']
  have "\<exists>fs. compare_raw_edit_distance im_true im_test size_threshold
             = Inr (excess_over_test_rows size_threshold (ravel test') (ravel true'), fs)"
    unfolding compare_raw_edit_distance_def assert_compatible_def ebind_def rs rt
    by (simp only: assms(3) sum.case prod.case cells Let_def false_merges_table
        excess_over_test_rows_def) simp
  with rs rt show ?thesis by blast
qed

theorem C4_false_merges_witness:
  "rect (Arr1 [1,1,2,2,3,3::nat]) \<and> rect (Arr1 [1,1,1,2,2,3::nat])
   \<and> shape (Arr1 [1,1,2,2,3,3::nat]) = shape (Arr1 [1,1,1,2,2,3::nat])
   \<and> ravel (Arr1 [1,1,1,2,2,3::nat]) \<noteq> []
   \<and> (\<exists>false_splits. compare_raw_edit_distance (Arr1 [1,1,2,2,3,3]) (Arr1 [1,1,1,2,2,3]) 0
          = Inr (2, false_splits))"
proof -
  have h: "rect (Arr1 [1,1,2,2,3,3::nat])" "rect (Arr1 [1,1,1,2,2,3::nat])"
    "shape (Arr1 [1,1,2,2,3,3::nat]) = shape (Arr1 [1,1,1,2,2,3::nat])"
    "ravel (Arr1 [1,1,1,2,2,3::nat]) \<noteq> []"
    by (simp_all add: rect_def)
  have r1: "relabel_from_one (Arr1 [1,1,1,2,2,3]) = Inr (Arr1 [1,1,1,2,2,3], [1,2,3], [1,2,3])"
    by code_simp
  have r2: "relabel_from_one (Arr1 [1,1,2,2,3,3]) = Inr (Arr1 [1,1,2,2,3,3], [1,2,3], [1,2,3])"
    by code_simp
  have e: "excess_over_test_rows 0 (ravel (Arr1 [1,1,1,2,2,3])) (ravel (Arr1 [1,1,2,2,3,3])) = 2"
    by code_simp
  from C4_false_merges_over_test_rows[OF h, of 0] r1 r2 e
  have "\<exists>false_splits. compare_raw_edit_distance (Arr1 [1,1,2,2,3,3]) (Arr1 [1,1,1,2,2,3]) 0
          = Inr (2, false_splits)"
    by auto
  with h show ?thesis by blast
qed

subsection \<open>The adjusted Rand index of a field with itself\<close>

lemma sum_list_upt_sum: "sum_list (map f [0..<n]) = sum f {0..<n}"
  by (simp add: interv_sum_list_conv_sum_set_nat)

lemma squares_above_sizes:
  fixes k :: "nat \<Rightarrow> nat"
  assumes "i < n" "2 \<le> k i"
  shows "sum_list (map k [0..<n]) < sum_list (map (\<lambda>i. (k i)\<^sup>2) [0..<n])"
proof -
  have le: "\<And>j. k j \<le> (k j)\<^sup>2" by (simp add: power2_eq_square)
  have "k i < (k i)\<^sup>2" using assms(2) by (simp add: power2_eq_square)
  then have "sum k {0..<n} < sum (\<lambda>i. (k i)\<^sup>2) {0..<n}"
    using assms(1) le by (intro sum_strict_mono_ex1) auto
  then show ?thesis by (simp only: sum_list_upt_sum)
qed

lemma squares_equal_sizes:
  fixes k :: "nat \<Rightarrow> nat"
  assumes "\<forall>i < n. k i \<le> 1"
  shows "sum_list (map (\<lambda>i. (k i)\<^sup>2) [0..<n]) = sum_list (map k [0..<n])"
proof -
  have "(k i)\<^sup>2 = k i" if "i < n" for i
  proof -
    have "k i = 0 \<or> k i = 1" using assms that by (metis le_neq_implies_less less_one)
    then show ?thesis by auto
  qed
  then show ?thesis by (simp add: sum_list_upt_sum)
qed

lemma squares_below_square:
  fixes k :: "nat \<Rightarrow> nat"
  assumes "i < n" "j < n" "i \<noteq> j" "0 < k i" "0 < k j"
  shows "sum_list (map (\<lambda>i. (k i)\<^sup>2) [0..<n]) < (sum_list (map k [0..<n]))\<^sup>2"
proof -
  let ?A = "{0..<n}" and ?N = "sum k {0..<n}"
  have mem: "\<And>l. l \<in> ?A \<Longrightarrow> k l \<le> ?N"
    by (rule member_le_sum) auto
  have "?N = k i + sum k (?A - {i})"
    using assms(1) by (simp add: sum.remove)
  moreover have "k j \<le> sum k (?A - {i})"
    using assms(2,3) by (intro member_le_sum) auto
  ultimately have "k i < ?N" using assms(5) by linarith
  then have strict: "k i * k i < k i * ?N" using assms(4) by simp
  have "sum (\<lambda>l. k l * k l) ?A < sum (\<lambda>l. k l * ?N) ?A"
    using assms(1) mem strict by (intro sum_strict_mono_ex1) auto
  also have "\<dots> = ?N * ?N" by (simp add: sum_distrib_right)
  finally show ?thesis by (simp add: sum_list_upt_sum power2_eq_square)
qed

lemma squares_equal_square:
  fixes k :: "nat \<Rightarrow> nat"
  assumes "\<forall>i < n. \<forall>j < n. i \<noteq> j \<longrightarrow> k i = 0 \<or> k j = 0"
  shows "(sum_list (map k [0..<n]))\<^sup>2 = sum_list (map (\<lambda>i. (k i)\<^sup>2) [0..<n])"
proof (cases "\<exists>l < n. 0 < k l")
  case False
  then show ?thesis by (simp add: sum_list_upt_sum)
next
  case True
  then obtain l where l: "l < n" "0 < k l" by blast
  have z: "\<And>i. i \<in> {0..<n} - {l} \<Longrightarrow> k i = 0"
    using assms l by force
  have "sum k {0..<n} = k l + sum k ({0..<n} - {l})"
    using l(1) by (simp add: sum.remove)
  then have a: "sum k {0..<n} = k l" using z by simp
  have "sum (\<lambda>i. (k i)\<^sup>2) {0..<n} = (k l)\<^sup>2 + sum (\<lambda>i. (k i)\<^sup>2) ({0..<n} - {l})"
    using l(1) by (simp add: sum.remove)
  then have b: "sum (\<lambda>i. (k i)\<^sup>2) {0..<n} = (k l)\<^sup>2" using z by simp
  show ?thesis by (simp add: sum_list_upt_sum a b)
qed

lemma n_pairs_self_off_diagonal: "i \<noteq> j \<Longrightarrow> n_pairs x x i j = 0"
  by (induction x) (auto simp add: n_pairs_Cons, simp add: n_pairs_def)

lemma n_pairs_self_diagonal: "n_pairs x x i i = (if i = 0 then 0 else count_list x i)"
  by (induction x) (auto simp add: n_pairs_Cons, simp add: n_pairs_def)


lemma sum_list_single:
  "sum_list (map (\<lambda>j. if i = j then (v::nat) else 0) [0..<n]) = (if i < n then v else 0)"
  by (induction n) auto

lemma map_upt_cong: "(\<And>i. i < n \<Longrightarrow> f i = g i) \<Longrightarrow> map f [0..<n] = map g [0..<n]"
  by simp

lemma self_row:
  assumes "i < n"
  shows "sum_list (map (\<lambda>j. n_pairs x x i j) [0..<n]) = n_pairs x x i i"
proof -
  have e: "map (\<lambda>j. n_pairs x x i j) [0..<n]
         = map (\<lambda>j. if i = j then n_pairs x x i i else 0) [0..<n]"
    by (rule map_upt_cong) (simp add: n_pairs_self_off_diagonal)
  show ?thesis
    unfolding e sum_list_single using assms by simp
qed

lemma self_column:
  assumes "j < n"
  shows "sum_list (map (\<lambda>i. n_pairs x x i j) [0..<n]) = n_pairs x x j j"
proof -
  have e: "map (\<lambda>i. n_pairs x x i j) [0..<n]
         = map (\<lambda>i. if j = i then n_pairs x x j j else 0) [0..<n]"
    by (rule map_upt_cong) (auto simp add: n_pairs_self_off_diagonal)
  show ?thesis
    unfolding e sum_list_single using assms by simp
qed

lemma self_row_squares:
  assumes "i < n"
  shows "sum_list (map (\<lambda>j. (n_pairs x x i j)\<^sup>2) [0..<n]) = (n_pairs x x i i)\<^sup>2"
proof -
  have e: "map (\<lambda>j. (n_pairs x x i j)\<^sup>2) [0..<n]
         = map (\<lambda>j. if i = j then (n_pairs x x i i)\<^sup>2 else 0) [0..<n]"
    by (rule map_upt_cong) (simp add: n_pairs_self_off_diagonal)
  show ?thesis
    unfolding e sum_list_single using assms by simp
qed

lemma self_row_sums:
  "row_sums (map (\<lambda>i. map (\<lambda>j. real (n_pairs x x i j)) [0..<Suc m]) [0..<Suc m])
     = map (\<lambda>i. real (n_pairs x x i i)) [0..<Suc m]"
  unfolding row_sums_table
  by (rule map_upt_cong) (simp only: real_sum_list self_row)

lemma self_col_sums:
  "col_sums (map (\<lambda>i. map (\<lambda>j. real (n_pairs x x i j)) [0..<Suc m]) [0..<Suc m])
     = map (\<lambda>j. real (n_pairs x x j j)) [0..<Suc m]"
  unfolding col_sums_table
  by (rule map_upt_cong) (simp only: real_sum_list self_column)

lemma self_total:
  "sum_all (map (\<lambda>i. map (\<lambda>j. real (n_pairs x x i j)) [0..<Suc m]) [0..<Suc m])
     = real (sum_list (map (\<lambda>i. n_pairs x x i i) [0..<Suc m]))"
proof -
  have "map (\<lambda>i. sum_list (map (\<lambda>j. n_pairs x x i j) [0..<Suc m])) [0..<Suc m]
      = map (\<lambda>i. n_pairs x x i i) [0..<Suc m]"
    by (rule map_upt_cong) (rule self_row)
  then show ?thesis
    by (simp only: sum_all_table)
qed

lemma self_squares:
  "sum_all (map (map (\<lambda>v. v * v))
      (map (\<lambda>i. map (\<lambda>j. real (n_pairs x x i j)) [0..<Suc m]) [0..<Suc m]))
     = real (sum_list (map (\<lambda>i. (n_pairs x x i i)\<^sup>2) [0..<Suc m]))"
proof -
  have "map (\<lambda>i. sum_list (map (\<lambda>j. (n_pairs x x i j)\<^sup>2) [0..<Suc m])) [0..<Suc m]
      = map (\<lambda>i. (n_pairs x x i i)\<^sup>2) [0..<Suc m]"
    by (rule map_upt_cong) (rule self_row_squares)
  then show ?thesis
    by (simp only: sum_all_squares_table)
qed

lemma sum_squares_real:
  "sum_list (map (\<lambda>s. s\<^sup>2) (map (\<lambda>i. real (k i)) xs)) = real (sum_list (map (\<lambda>i. (k i)\<^sup>2) xs))"
  by (induction xs) auto


lemma rand_values_self:
  "rand_values (map (\<lambda>i. map (\<lambda>j. real (n_pairs x x i j)) [0..<Suc m]) [0..<Suc m])
     = ((real (sum_list (map (\<lambda>i. (n_pairs x x i i)\<^sup>2) [0..<Suc m]))
          - real (sum_list (map (\<lambda>i. n_pairs x x i i) [0..<Suc m]))) / 2,
        0, 0,
        ((real (sum_list (map (\<lambda>i. n_pairs x x i i) [0..<Suc m])))\<^sup>2
          - real (sum_list (map (\<lambda>i. (n_pairs x x i i)\<^sup>2) [0..<Suc m]))) / 2)"
  unfolding rand_values_def Let_def self_total self_squares self_row_sums self_col_sums
    sum_squares_real
  by (simp add: power2_eq_square)

lemma adj_rand_formula_self:
  fixes a d :: real
  shows "fdiv ((a + 0 + 0 + d) * (a + d) - ((a + 0) * (a + 0) + (0 + d) * (0 + d)))
              ((a + 0 + 0 + d)\<^sup>2 - ((a + 0) * (a + 0) + (0 + d) * (0 + d)))
       = (if a = 0 \<or> d = 0 then None else Some 1)"
proof -
  have "(a + 0 + 0 + d) * (a + d) - ((a + 0) * (a + 0) + (0 + d) * (0 + d)) = 2 * a * d"
    by (simp add: algebra_simps)
  moreover have "(a + 0 + 0 + d)\<^sup>2 - ((a + 0) * (a + 0) + (0 + d) * (0 + d)) = 2 * a * d"
    by (simp add: algebra_simps power2_eq_square)
  ultimately show ?thesis
    by (simp add: fdiv_def)
qed

lemma half_diff_zero: "((real S - real N) / 2 = 0) = (S = N)"
  by simp

lemma half_square_diff_zero: "(((real N)\<^sup>2 - real S) / 2 = 0) = (N\<^sup>2 = S)"
proof -
  have "(((real N)\<^sup>2 - real S) / 2 = 0) = (real (N\<^sup>2) = real S)"
    by simp
  also have "\<dots> = (N\<^sup>2 = S)"
    by (rule of_nat_eq_iff)
  finally show ?thesis .
qed

lemma adj_rand_index_self:
  assumes "ravel a \<noteq> []"
  shows "adj_rand_index a a =
     Inr (if sum_list (map (\<lambda>i. (n_pairs (ravel a) (ravel a) i i)\<^sup>2) [0..<Suc (Max (set (ravel a)))])
               = sum_list (map (\<lambda>i. n_pairs (ravel a) (ravel a) i i) [0..<Suc (Max (set (ravel a)))])
            \<or> (sum_list (map (\<lambda>i. n_pairs (ravel a) (ravel a) i i) [0..<Suc (Max (set (ravel a)))]))\<^sup>2
               = sum_list (map (\<lambda>i. (n_pairs (ravel a) (ravel a) i i)\<^sup>2) [0..<Suc (Max (set (ravel a)))])
          then None else Some 1)"
proof -
  let ?x = "ravel a"
  let ?m = "Max (set ?x)"
  let ?N = "sum_list (map (\<lambda>i. n_pairs ?x ?x i i) [0..<Suc ?m])"
  let ?S = "sum_list (map (\<lambda>i. (n_pairs ?x ?x i i)\<^sup>2) [0..<Suc ?m])"
  have cells: "contingency_table a a =
      Inr (map (\<lambda>i. map (\<lambda>j. real (n_pairs ?x ?x i j)) [0..<Suc ?m]) [0..<Suc ?m])"
    by (rule contingency_table_cells[OF refl assms])
  show ?thesis
    unfolding adj_rand_index_def ebind_def cells
    by (simp only: sum.case rand_values_self prod.case Let_def adj_rand_formula_self
        half_diff_zero half_square_diff_zero)
qed


lemma label_in_range: "l \<in> set x \<Longrightarrow> l < Suc (Max (set x))"
  by (simp add: less_Suc_eq_le)

lemma size_positive_iff: "0 < n_pairs x x i i \<longleftrightarrow> i \<noteq> 0 \<and> i \<in> set x"
  using count_list_0_iff[of x i] by (auto simp add: n_pairs_self_diagonal)

lemma sizes_differ_from_squares:
  "sum_list (map (\<lambda>i. (n_pairs x x i i)\<^sup>2) [0..<Suc (Max (set x))])
     \<noteq> sum_list (map (\<lambda>i. n_pairs x x i i) [0..<Suc (Max (set x))])
   \<longleftrightarrow> (\<exists>l \<in> set x. l \<noteq> 0 \<and> 2 \<le> count_list x l)"
proof
  assume ne: "sum_list (map (\<lambda>i. (n_pairs x x i i)\<^sup>2) [0..<Suc (Max (set x))])
     \<noteq> sum_list (map (\<lambda>i. n_pairs x x i i) [0..<Suc (Max (set x))])"
  have "\<not> (\<forall>i < Suc (Max (set x)). n_pairs x x i i \<le> 1)"
    using squares_equal_sizes[of "Suc (Max (set x))" "\<lambda>i. n_pairs x x i i"] ne by blast
  then obtain i where "1 < n_pairs x x i i"
    by (auto simp add: not_le)
  then have i: "2 \<le> n_pairs x x i i" by simp
  then have "0 < n_pairs x x i i" by simp
  then have "i \<noteq> 0" "i \<in> set x" by (simp_all add: size_positive_iff)
  moreover have "2 \<le> count_list x i"
    using i \<open>i \<noteq> 0\<close> by (simp add: n_pairs_self_diagonal)
  ultimately show "\<exists>l \<in> set x. l \<noteq> 0 \<and> 2 \<le> count_list x l" by blast
next
  assume "\<exists>l \<in> set x. l \<noteq> 0 \<and> 2 \<le> count_list x l"
  then obtain l where l: "l \<in> set x" "l \<noteq> 0" "2 \<le> count_list x l" by blast
  have "2 \<le> n_pairs x x l l" using l by (simp add: n_pairs_self_diagonal)
  from squares_above_sizes[OF label_in_range[OF l(1)], of "\<lambda>i. n_pairs x x i i", OF this]
  show "sum_list (map (\<lambda>i. (n_pairs x x i i)\<^sup>2) [0..<Suc (Max (set x))])
     \<noteq> sum_list (map (\<lambda>i. n_pairs x x i i) [0..<Suc (Max (set x))])"
    by simp
qed

lemma square_differs_from_squares:
  "(sum_list (map (\<lambda>i. n_pairs x x i i) [0..<Suc (Max (set x))]))\<^sup>2
     \<noteq> sum_list (map (\<lambda>i. (n_pairs x x i i)\<^sup>2) [0..<Suc (Max (set x))])
   \<longleftrightarrow> (\<exists>l1 \<in> set x. \<exists>l2 \<in> set x. l1 \<noteq> 0 \<and> l2 \<noteq> 0 \<and> l1 \<noteq> l2)"
proof
  assume ne: "(sum_list (map (\<lambda>i. n_pairs x x i i) [0..<Suc (Max (set x))]))\<^sup>2
     \<noteq> sum_list (map (\<lambda>i. (n_pairs x x i i)\<^sup>2) [0..<Suc (Max (set x))])"
  have "\<not> (\<forall>i < Suc (Max (set x)). \<forall>j < Suc (Max (set x)).
            i \<noteq> j \<longrightarrow> n_pairs x x i i = 0 \<or> n_pairs x x j j = 0)"
    using squares_equal_square[of "Suc (Max (set x))" "\<lambda>i. n_pairs x x i i"] ne by blast
  then obtain i j where ij: "i \<noteq> j" "0 < n_pairs x x i i" "0 < n_pairs x x j j"
    by auto
  then show "\<exists>l1 \<in> set x. \<exists>l2 \<in> set x. l1 \<noteq> 0 \<and> l2 \<noteq> 0 \<and> l1 \<noteq> l2"
    unfolding size_positive_iff by blast
next
  assume "\<exists>l1 \<in> set x. \<exists>l2 \<in> set x. l1 \<noteq> 0 \<and> l2 \<noteq> 0 \<and> l1 \<noteq> l2"
  then obtain l1 l2 where l: "l1 \<in> set x" "l2 \<in> set x" "l1 \<noteq> 0" "l2 \<noteq> 0" "l1 \<noteq> l2"
    by blast
  have p: "0 < n_pairs x x l1 l1" "0 < n_pairs x x l2 l2"
    using l by (simp_all add: size_positive_iff)
  from squares_below_square[OF label_in_range[OF l(1)] label_in_range[OF l(2)] l(5),
      of "\<lambda>i. n_pairs x x i i", OF p]
  show "(sum_list (map (\<lambda>i. n_pairs x x i i) [0..<Suc (Max (set x))]))\<^sup>2
     \<noteq> sum_list (map (\<lambda>i. (n_pairs x x i i)\<^sup>2) [0..<Suc (Max (set x))])"
    by simp
qed

lemma nan_unless: "(if \<not> q \<or> \<not> p then None else Some (1::real)) = (if p \<and> q then Some 1 else None)"
  by simp

text \<open>
  C9 (amended): for a non-empty label field \<open>x\<close>, \<open>adj_rand_index(x, x)\<close> is \<open>1.0\<close>
  exactly when \<open>x\<close> has two distinct non-zero labels and some non-zero label on at least
  two voxels; for every other non-empty field numerator and denominator are both zero
  and the result is \<open>nan\<close>.
\<close>

theorem C9_adj_rand_index_self:
  assumes "ravel x \<noteq> []"
  shows "adj_rand_index x x =
     Inr (if (\<exists>l1 \<in> set (ravel x). \<exists>l2 \<in> set (ravel x). l1 \<noteq> 0 \<and> l2 \<noteq> 0 \<and> l1 \<noteq> l2)
            \<and> (\<exists>l \<in> set (ravel x). l \<noteq> 0 \<and> 2 \<le> count_list (ravel x) l)
          then Some 1 else None)"
proof -
  let ?r = "ravel x"
  let ?N = "sum_list (map (\<lambda>i. n_pairs ?r ?r i i) [0..<Suc (Max (set ?r))])"
  let ?S = "sum_list (map (\<lambda>i. (n_pairs ?r ?r i i)\<^sup>2) [0..<Suc (Max (set ?r))])"
  have A: "(?S = ?N) = (\<not> (\<exists>l \<in> set ?r. l \<noteq> 0 \<and> 2 \<le> count_list ?r l))"
    using sizes_differ_from_squares[of ?r] by blast
  have B: "(?N\<^sup>2 = ?S)
      = (\<not> (\<exists>l1 \<in> set ?r. \<exists>l2 \<in> set ?r. l1 \<noteq> 0 \<and> l2 \<noteq> 0 \<and> l1 \<noteq> l2))"
    using square_differs_from_squares[of ?r] by blast
  show ?thesis
    unfolding adj_rand_index_self[OF assms] A B nan_unless ..
qed

text \<open>
  C9 (as stated): \<open>adj_rand_index(x, x) = 1.0\<close> for every label field.  On the field of
  three voxels that is one single segment the expected-index term equals \<open>nk\<^sup>2\<close>, the
  quotient is \<open>0/0\<close> and the result is \<open>nan\<close>.
\<close>

theorem C9_single_segment_is_nan:
  "adj_rand_index (Arr1 [1,1,1]) (Arr1 [1,1,1]) = Inr None"
  by code_simp

theorem C9_adj_rand_index_self_witness:
  "ravel (Arr1 [1,1,2::nat]) \<noteq> [] \<and> adj_rand_index (Arr1 [1,1,2]) (Arr1 [1,1,2]) = Inr (Some 1)"
proof -
  have h: "ravel (Arr1 [1,1,2::nat]) \<noteq> []" by simp
  have c: "(\<exists>l1 \<in> set (ravel (Arr1 [1,1,2::nat])). \<exists>l2 \<in> set (ravel (Arr1 [1,1,2::nat])).
              l1 \<noteq> 0 \<and> l2 \<noteq> 0 \<and> l1 \<noteq> l2)
          \<and> (\<exists>l \<in> set (ravel (Arr1 [1,1,2::nat])). l \<noteq> 0 \<and> 2 \<le> count_list (ravel (Arr1 [1,1,2::nat])) l)"
    by simp
  have "adj_rand_index (Arr1 [1,1,2]) (Arr1 [1,1,2]) = Inr (Some 1)"
    unfolding C9_adj_rand_index_self[OF h] using c by (simp only: if_True simp_thms)
  with h show ?thesis by blast
qed

subsection \<open>The thresholds of the sweep\<close>

lemma unique_sorted_list_of_set: "unique xs = sorted_list_of_set (set xs)"
  by (simp add: unique_def sorted_list_of_set_sort_remdups)

lemma distinct_unique: "distinct (unique xs)"
  by (simp add: unique_sorted_list_of_set)

lemma drop_smallest_is_drop_zero:
  fixes xs :: "real list"
  assumes "xs \<noteq> []" "Min (set xs) = 0"
  shows "drop 1 (unique xs) = filter (\<lambda>v. v \<noteq> 0) (unique xs)"
proof -
  let ?A = "set xs"
  have ne: "?A \<noteq> {}" using assms(1) by simp
  have u: "unique xs = 0 # sorted_list_of_set (?A - {0})"
    unfolding unique_sorted_list_of_set
    using sorted_list_of_set_nonempty[OF finite_set ne] assms(2) by simp
  have "\<forall>v \<in> set (sorted_list_of_set (?A - {0})). v \<noteq> 0"
    by simp
  then have "filter (\<lambda>v. v \<noteq> 0) (sorted_list_of_set (?A - {0})) = sorted_list_of_set (?A - {0})"
    by (simp only: filter_id_conv)
  then show ?thesis
    unfolding u by simp
qed

lemma at_most_one_zero:
  fixes u :: "real list"
  assumes "distinct u"
  shows "length (drop 1 u) \<le> length (filter (\<lambda>v. v \<noteq> 0) u)"
proof -
  have "length (filter (\<lambda>v. v = 0) u) = card ({v. v = 0} \<inter> set u)"
    using assms by (rule distinct_length_filter)
  also have "\<dots> \<le> card {0::real}"
    by (intro card_mono) auto
  finally have z: "length (filter (\<lambda>v. v = 0) u) \<le> 1" by simp
  have "length (filter (\<lambda>v. v = 0) u) + length (filter (\<lambda>v. \<not> v = 0) u) = length u"
    using sum_length_filter_compl[of "\<lambda>v. v = 0" u] by simp
  then show ?thesis using z by simp
qed

lemma size_of_map_ndarray: "size_of (map_ndarray f a) = size_of a"
  by (simp add: size_of_def ravel_map_ndarray)

lemma rand_index_returns:
  assumes "length (ravel a) = length (ravel b)" "ravel b \<noteq> []"
  shows "\<exists>v. rand_index a b = Inr v"
  unfolding rand_index_def ebind_def contingency_table_cells[OF assms]
  by (simp add: case_prod_unfold del: upt_Suc)

lemma adj_rand_index_returns:
  assumes "length (ravel a) = length (ravel b)" "ravel b \<noteq> []"
  shows "\<exists>v. adj_rand_index a b = Inr v"
  unfolding adj_rand_index_def ebind_def contingency_table_cells[OF assms]
  by (simp add: case_prod_unfold Let_def del: upt_Suc)

lemma sweep_returns:
  assumes "\<forall>m. size_of (fst (label m)) = size_of m"
    and "size_of im_true = size_of im_test" "ravel im_true \<noteq> []"
  shows "\<exists>r. sweep label im_true im_test ts = Inr r \<and> length r = length ts"
proof (induction ts)
  case Nil
  then show ?case by simp
next
  case (Cons t ts)
  let ?seg = "fst (label (map_ndarray (\<lambda>v. v < t) im_test))"
  have "size_of ?seg = size_of im_true"
    using assms(1,2) by (simp add: size_of_map_ndarray)
  then have len: "length (ravel ?seg) = length (ravel im_true)"
    by (simp add: size_of_def)
  from rand_index_returns[OF len assms(3)] obtain ri where ri: "rand_index ?seg im_true = Inr ri"
    by blast
  from adj_rand_index_returns[OF len assms(3)] obtain ari where
    ari: "adj_rand_index ?seg im_true = Inr ari" by blast
  from Cons.IH obtain r where r: "sweep label im_true im_test ts = Inr r" "length r = length ts"
    by blast
  show ?case
    by (simp add: Let_def ebind_def ri ari r)
qed


lemma size_of_one_component: "size_of (fst (one_component m)) = size_of m"
  by (simp add: one_component_def size_of_map_ndarray)

text \<open>
  C10 (as stated): the candidate thresholds are exactly the non-zero unique values of
  the test map.  The code takes \<open>np.unique(im_test)[1:]\<close>, the unique values without
  the smallest one, whatever it is: on the test map \<open>[1, 2, 3]\<close> the thresholds are
  \<open>[2, 3]\<close>, while the non-zero unique values are \<open>[1, 2, 3]\<close>.
\<close>

theorem C10_drops_smallest_value:
  "map_sum id fst (compare_rand_by_threshold one_component (Arr1 [1,1,1]) (Arr1 [1,2,3]) None)
     = Inr [2, 3]
   \<and> filter (\<lambda>v. v \<noteq> 0) (unique (ravel (Arr1 [1,2,3::real]))) = [1, 2, 3]"
  by code_simp

text \<open>
  C10 (amended): for fields of identical shape, and a labelling collaborator that
  returns a field of the size of its argument, whenever \<open>npoints\<close> is absent or at least
  the number of non-zero unique values of the test map, the call returns and its
  thresholds are the unique values of the test map in ascending order without the
  smallest one, used verbatim, one output column each; these are exactly the non-zero
  unique values when the smallest value of the test map is 0.
\<close>

theorem C10_thresholds_verbatim:
  assumes "rect im_true" "rect im_test" "shape im_true = shape im_test"
    and "\<forall>m. size_of (fst (label m)) = size_of m"
    and "npoints = None \<or>
         (\<exists>k. npoints = Some k
            \<and> int (length (filter (\<lambda>v. v \<noteq> 0) (unique (ravel im_test)))) \<le> k)"
  shows "(\<exists>ris aris.
            compare_rand_by_threshold label im_true im_test npoints
              = Inr (drop 1 (unique (ravel im_test)), ris, aris)
          \<and> length ris = length (drop 1 (unique (ravel im_test)))
          \<and> length aris = length (drop 1 (unique (ravel im_test))))
       \<and> (ravel im_test \<noteq> [] \<and> Min (set (ravel im_test)) = 0 \<longrightarrow>
            drop 1 (unique (ravel im_test)) = filter (\<lambda>v. v \<noteq> 0) (unique (ravel im_test)))"
proof -
  let ?ts = "drop 1 (unique (ravel im_test))"
  have sz: "size_of im_true = size_of im_test"
    using size_rect[OF assms(1)] size_rect[OF assms(2)] assms(3) by simp
  have short: "length ?ts \<le> length (filter (\<lambda>v. v \<noteq> 0) (unique (ravel im_test)))"
    by (rule at_most_one_zero[OF distinct_unique])
  have "\<not> int (length ?ts) > 2 * (case npoints of None \<Rightarrow> int (length ?ts) | Some k \<Rightarrow> k)"
    using assms(5) short by (auto split: option.splits)
  then have th: "thresholds im_test npoints = Inr ?ts"
    unfolding thresholds_def Let_def by (simp only: if_False)
  have "\<exists>r. sweep label im_true im_test ?ts = Inr r \<and> length r = length ?ts"
  proof (cases "ravel im_true = []")
    case True
    then have "ravel im_test = []" using sz by (simp add: size_of_def)
    then show ?thesis by (simp add: unique_def)
  next
    case False
    then show ?thesis by (rule sweep_returns[OF assms(4) sz])
  qed
  then obtain r where r: "sweep label im_true im_test ?ts = Inr r" "length r = length ?ts"
    by blast
  have "compare_rand_by_threshold label im_true im_test npoints
          = Inr (?ts, map fst r, map snd r)"
    unfolding compare_rand_by_threshold_def assert_compatible_def ebind_def
    by (simp only: assms(3) simp_thms if_True sum.case th r)
  then have first: "\<exists>ris aris.
            compare_rand_by_threshold label im_true im_test npoints = Inr (?ts, ris, aris)
          \<and> length ris = length ?ts \<and> length aris = length ?ts"
    using r(2) by simp
  have second: "ravel im_test \<noteq> [] \<and> Min (set (ravel im_test)) = 0 \<longrightarrow>
            ?ts = filter (\<lambda>v. v \<noteq> 0) (unique (ravel im_test))"
    using drop_smallest_is_drop_zero by blast
  from first second show ?thesis by blast
qed

theorem C10_thresholds_witness:
  "rect (Arr1 [1,1,2::nat]) \<and> rect (Arr1 [0, 1/2, 1::real])
   \<and> shape (Arr1 [1,1,2::nat]) = shape (Arr1 [0, 1/2, 1::real])
   \<and> (\<forall>m. size_of (fst (one_component m)) = size_of m)
   \<and> int (length (filter (\<lambda>v. v \<noteq> 0) (unique (ravel (Arr1 [0, 1/2, 1::real]))))) \<le> 2
   \<and> map_sum id fst (compare_rand_by_threshold one_component (Arr1 [1,1,2])
                        (Arr1 [0, 1/2, 1]) (Some 2)) = Inr [1/2, 1]"
proof -
  have h: "rect (Arr1 [1,1,2::nat])" "rect (Arr1 [0, 1/2, 1::real])"
    "shape (Arr1 [1,1,2::nat]) = shape (Arr1 [0, 1/2, 1::real])"
    by (simp_all add: rect_def)
  have l: "\<forall>m. size_of (fst (one_component m)) = size_of m"
    by (simp add: size_of_one_component)
  have n: "int (length (filter (\<lambda>v. v \<noteq> 0) (unique (ravel (Arr1 [0, 1/2, 1::real]))))) \<le> 2"
    by code_simp
  then have np: "Some 2 = None \<or>
         (\<exists>k. Some 2 = Some k
            \<and> int (length (filter (\<lambda>v. v \<noteq> 0) (unique (ravel (Arr1 [0, 1/2, 1::real]))))) \<le> k)"
    by blast
  have ts: "drop 1 (unique (ravel (Arr1 [0, 1/2, 1::real]))) = [1/2, 1]"
    by code_simp
  from C10_thresholds_verbatim[OF h l np] obtain ris aris where
    "compare_rand_by_threshold one_component (Arr1 [1,1,2]) (Arr1 [0, 1/2, 1]) (Some 2)
       = Inr (drop 1 (unique (ravel (Arr1 [0, 1/2, 1::real]))), ris, aris)"
    by blast
  then have "map_sum id fst (compare_rand_by_threshold one_component (Arr1 [1,1,2])
                        (Arr1 [0, 1/2, 1]) (Some 2)) = Inr [1/2, 1]"
    by (simp only: ts map_sum.simps fst_conv id_apply)
  with h l n show ?thesis by blast
qed

end
